theory Spec2Isabelle
  imports Main "HOL-Library.Sublist"
begin

section \<open>JavaScript values and the object store\<close>

text \<open>
  The comparator \<open>assertEquals\<close> works on arbitrary JavaScript values. Objects and arrays
  are compared by reference (\<open>===\<close>) and may refer to themselves, so they live in a store
  and a value only carries the address. The store is a list, the address is the index.

  Numbers: the integers, and \<open>NaN\<close>, the one number that is not \<open>===\<close> to itself.
  Symbols and big integers are left out, as are fractions and infinities, which \<open>===\<close>
  treats like the integers.

  Every plain object inherits from \<open>Object.prototype\<close> and every array from
  \<open>Array.prototype\<close>, so a property read can return one of the two prototype objects
  or one of their functions. These are values of their own: \<open>VProto p\<close> is the
  prototype object \<open>p\<close>, and \<open>VFun p name\<close> is the function stored under
  \<open>name\<close> in \<open>p\<close>. They are the only functions of the model.
\<close>

type_synonym addr = nat

datatype jsnum = JNaN | JInt int

datatype proto = ObjectPrototype | ArrayPrototype

datatype jsval =
    VUndefined
  | VNull
  | VBool bool
  | VNum jsnum
  | VStr string
  | VRef addr
  | VFun proto string
  | VProto proto

text \<open>
  An array holds its elements (no holes, no extra properties); a plain object holds its
  own enumerable properties in the order in which \<open>for (key in obj)\<close> and
  \<open>Object.keys(obj)\<close> enumerate them. The properties of the two prototypes are not
  enumerable, so neither enumeration lists them.
\<close>

datatype jsobj = Arr "jsval list" | Obj "(string \<times> jsval) list"

type_synonym heap = "jsobj list"

definition deref :: "heap \<Rightarrow> addr \<Rightarrow> jsobj option" where
  "deref h a = (if a < length h then Some (h ! a) else None)"

text \<open>A store is well formed when every reference in it is allocated and no object has a key twice.\<close>

fun wf_val :: "heap \<Rightarrow> jsval \<Rightarrow> bool" where
  "wf_val h (VRef a) = (a < length h)"
| "wf_val h _ = True"

fun wf_obj :: "heap \<Rightarrow> jsobj \<Rightarrow> bool" where
  "wf_obj h (Arr xs) = list_all (wf_val h) xs"
| "wf_obj h (Obj kvs) = (distinct (map fst kvs) \<and> list_all (wf_val h) (map snd kvs))"

definition wf_heap :: "heap \<Rightarrow> bool" where
  "wf_heap h = list_all (wf_obj h) h"

section \<open>The operators of the language that the comparator uses\<close>

text \<open>\<open>typeof v\<close>: \<open>null\<close>, arrays, objects and the prototype objects are all \<open>"object"\<close>.\<close>

fun typeof :: "jsval \<Rightarrow> string" where
  "typeof VUndefined = ''undefined''"
| "typeof VNull = ''object''"
| "typeof (VBool b) = ''boolean''"
| "typeof (VNum n) = ''number''"
| "typeof (VStr s) = ''string''"
| "typeof (VRef a) = ''object''"
| "typeof (VFun p name) = ''function''"
| "typeof (VProto p) = ''object''"

text \<open>\<open>x === y\<close>: equal primitives or the same reference; \<open>NaN === NaN\<close> is false.\<close>

definition strict_eq :: "jsval \<Rightarrow> jsval \<Rightarrow> bool" where
  "strict_eq x y = (x = y \<and> x \<noteq> VNum JNaN)"

text \<open>\<open>Array.isArray(v)\<close>. \<open>Array.prototype\<close> is itself an array, of length 0.\<close>

definition isArray :: "heap \<Rightarrow> jsval \<Rightarrow> bool" where
  "isArray h v =
     (case v of
        VRef a \<Rightarrow> (case deref h a of Some (Arr xs) \<Rightarrow> True | _ \<Rightarrow> False)
      | VProto p \<Rightarrow> (p = ArrayPrototype)
      | _ \<Rightarrow> False)"

text \<open>Decimal numerals, as \<open>String(n)\<close> prints an integer.\<close>

definition digit_char :: "nat \<Rightarrow> char" where
  "digit_char d = ''0123456789'' ! d"

fun show_nat :: "nat \<Rightarrow> string" where
  "show_nat n = (if n < 10 then [digit_char n] else show_nat (n div 10) @ [digit_char (n mod 10)])"

declare show_nat.simps [simp del]

definition show_int :: "int \<Rightarrow> string" where
  "show_int i = (if i < 0 then ''-'' @ show_nat (nat (- i)) else show_nat (nat i))"

fun show_num :: "jsnum \<Rightarrow> string" where
  "show_num JNaN = ''NaN''"
| "show_num (JInt i) = show_int i"

text \<open>Reading a decimal numeral back, to state that the printed number is the number.\<close>

definition digit_val :: "char \<Rightarrow> nat" where
  "digit_val c = of_char c - 48"

definition read_nat :: "string \<Rightarrow> nat" where
  "read_nat s = foldl (\<lambda>n c. 10 * n + digit_val c) 0 s"

text \<open>\<open>xs.join(sep)\<close> on a list of strings.\<close>

fun join :: "string \<Rightarrow> string list \<Rightarrow> string" where
  "join sep [] = []"
| "join sep [x] = x"
| "join sep (x # y # ys) = x @ sep @ join sep (y # ys)"

text \<open>
  The name of a function of the standard library: the property name, except that
  \<open>constructor\<close> holds the function \<open>Object\<close> or \<open>Array\<close>.
\<close>

definition fun_name :: "proto \<Rightarrow> string \<Rightarrow> string" where
  "fun_name p name =
     (if name = ''constructor''
      then (case p of ObjectPrototype \<Rightarrow> ''Object'' | ArrayPrototype \<Rightarrow> ''Array'')
      else name)"

text \<open>
  \<open>String(v)\<close>, what a template literal \<open>`${v}`\<close> inserts. A plain object prints as
  \<open>[object Object]\<close>; an array prints its elements joined by commas, \<open>null\<close> and
  \<open>undefined\<close> elements as the empty string, and an array met again inside itself as the
  empty string. A function of the standard library prints as
  \<open>function name() { [native code] }\<close> (the spacing is the engine's; this is V8's).
  The first argument bounds the nesting depth.
\<close>

primrec js_string :: "nat \<Rightarrow> heap \<Rightarrow> addr list \<Rightarrow> jsval \<Rightarrow> string" where
  "js_string 0 h seen v = []"
| "js_string (Suc n) h seen v =
     (case v of
        VUndefined \<Rightarrow> ''undefined''
      | VNull \<Rightarrow> ''null''
      | VBool b \<Rightarrow> (if b then ''true'' else ''false'')
      | VNum x \<Rightarrow> show_num x
      | VStr s \<Rightarrow> s
      | VRef a \<Rightarrow>
          (case deref h a of
             None \<Rightarrow> []
           | Some (Obj kvs) \<Rightarrow> ''[object Object]''
           | Some (Arr xs) \<Rightarrow>
               (if a \<in> set seen then []
                else join '',''
                  (map (\<lambda>x. if x = VUndefined \<or> x = VNull then [] else js_string n h (a # seen) x) xs)))
      | VFun p name \<Rightarrow> ''function '' @ fun_name p name @ ''() { [native code] }''
      | VProto p \<Rightarrow> (case p of ObjectPrototype \<Rightarrow> ''[object Object]'' | ArrayPrototype \<Rightarrow> []))"

definition to_string :: "heap \<Rightarrow> jsval \<Rightarrow> string" where
  "to_string h v = js_string (Suc (length h)) h [] v"

text \<open>
  The keys that \<open>for (key in v)\<close> and \<open>Object.keys(v)\<close> enumerate: the indices of
  an array, the keys of an object; none for a prototype object or a function.
\<close>

definition own_keys :: "heap \<Rightarrow> jsval \<Rightarrow> string list" where
  "own_keys h v =
     (case v of
        VRef a \<Rightarrow>
          (case deref h a of
             Some (Arr xs) \<Rightarrow> map show_nat [0..<length xs]
           | Some (Obj kvs) \<Rightarrow> map fst kvs
           | None \<Rightarrow> [])
      | _ \<Rightarrow> [])"

text \<open>
  The properties of the two prototypes, with their names as ECMAScript 2023 lists them
  (those of its Annex B included). All are functions, except the accessor
  \<open>__proto__\<close>, which returns the prototype of the object it is read on, and the
  \<open>length\<close> of \<open>Array.prototype\<close>.
\<close>

definition object_prototype_functions :: "string list" where
  "object_prototype_functions =
     [''constructor'', ''hasOwnProperty'', ''isPrototypeOf'', ''propertyIsEnumerable'',
      ''toLocaleString'', ''toString'', ''valueOf'', ''__defineGetter__'', ''__defineSetter__'',
      ''__lookupGetter__'', ''__lookupSetter__'']"

definition array_prototype_functions :: "string list" where
  "array_prototype_functions =
     [''at'', ''concat'', ''constructor'', ''copyWithin'', ''entries'', ''every'', ''fill'',
      ''filter'', ''find'', ''findIndex'', ''findLast'', ''findLastIndex'', ''flat'', ''flatMap'',
      ''forEach'', ''includes'', ''indexOf'', ''join'', ''keys'', ''lastIndexOf'', ''map'',
      ''pop'', ''push'', ''reduce'', ''reduceRight'', ''reverse'', ''shift'', ''slice'', ''some'',
      ''sort'', ''splice'', ''toLocaleString'', ''toReversed'', ''toSorted'', ''toSpliced'',
      ''toString'', ''unshift'', ''values'', ''with'']"

text \<open>
  A read that reaches \<open>Object.prototype\<close>, or \<open>Array.prototype\<close> and then
  \<open>Object.prototype\<close>. The first argument is the prototype of the object the read
  started on (\<open>null\<close> when it started on \<open>Object.prototype\<close>).
\<close>

definition object_prototype_get :: "jsval \<Rightarrow> string \<Rightarrow> jsval" where
  "object_prototype_get receiver_proto key =
     (if key = ''__proto__'' then receiver_proto
      else if key \<in> set object_prototype_functions then VFun ObjectPrototype key
      else VUndefined)"

definition array_prototype_get :: "jsval \<Rightarrow> string \<Rightarrow> jsval" where
  "array_prototype_get receiver_proto key =
     (if key = ''length'' then VNum (JInt 0)
      else if key \<in> set array_prototype_functions then VFun ArrayPrototype key
      else object_prototype_get receiver_proto key)"

text \<open>The names that every plain object inherits.\<close>

definition object_prototype_has :: "string \<Rightarrow> bool" where
  "object_prototype_has key = (key = ''__proto__'' \<or> key \<in> set object_prototype_functions)"

text \<open>
  \<open>v[key]\<close> on an array, an object or a prototype object: the own element or property
  when there is one, otherwise what the prototype chain holds, otherwise \<open>undefined\<close>.
  An array also has its \<open>length\<close>. The comparator reads properties only after it has
  established that both sides have \<open>typeof\<close> \<open>"object"\<close> and are not \<open>null\<close>,
  so reads on primitives and on functions do not occur.
\<close>

definition get_prop :: "heap \<Rightarrow> jsval \<Rightarrow> string \<Rightarrow> jsval" where
  "get_prop h v key =
     (case v of
        VRef a \<Rightarrow>
          (case deref h a of
             Some (Arr xs) \<Rightarrow>
               (if key = ''length'' then VNum (JInt (int (length xs)))
                else (case find (\<lambda>i. show_nat i = key) [0..<length xs] of
                        Some i \<Rightarrow> xs ! i
                      | None \<Rightarrow> array_prototype_get (VProto ArrayPrototype) key))
           | Some (Obj kvs) \<Rightarrow>
               (case map_of kvs key of
                  Some x \<Rightarrow> x
                | None \<Rightarrow> object_prototype_get (VProto ObjectPrototype) key)
           | None \<Rightarrow> VUndefined)
      | VProto p \<Rightarrow>
          (case p of
             ObjectPrototype \<Rightarrow> object_prototype_get VNull key
           | ArrayPrototype \<Rightarrow> array_prototype_get (VProto ObjectPrototype) key)
      | _ \<Rightarrow> VUndefined)"

text \<open>\<open>v?.length\<close>: \<open>undefined\<close> on \<open>null\<close> and \<open>undefined\<close>.\<close>

definition opt_length :: "heap \<Rightarrow> jsval \<Rightarrow> jsval" where
  "opt_length h v = (if v = VNull \<or> v = VUndefined then VUndefined else get_prop h v ''length'')"

section \<open>Errors\<close>

text \<open>
  The comparator fails by \<open>throw\<close>. A thrown error records the constructor the code uses
  (\<open>TypeError\<close> or \<open>Error\<close>), the throw statement it comes from, named by the failure
  kind, and the message.
\<close>

datatype errclass = TypeError | Error

datatype errkind =
    TypeMismatch
  | ShapeMismatch
  | ValueMismatch
  | LengthMismatch
  | MissingKey
  | UnexpectedKey
  | MissingValue

datatype js_error = Thrown errclass errkind string

fun err_kind :: "js_error \<Rightarrow> errkind" where
  "err_kind (Thrown c k s) = k"

fun err_message :: "js_error \<Rightarrow> string" where
  "err_message (Thrown c k s) = s"

section \<open>The comparator\<close>

text \<open>The \<open>Map\<close> of visited values: only \<open>has\<close> and \<open>set\<close> are used.\<close>

type_synonym vmap = "jsval \<rightharpoonup> jsval"

definition map_has :: "vmap \<Rightarrow> jsval \<Rightarrow> bool" where
  "map_has vm k = (vm k \<noteq> None)"

definition objType :: "heap \<Rightarrow> jsval \<Rightarrow> string" where
  "objType h obj = (if isArray h obj then ''Array'' else if obj = VNull then ''Null'' else ''Object'')"

definition key_path :: "string list \<Rightarrow> string \<Rightarrow> string" where
  "key_path keyTrace key = join ''.'' (keyTrace @ [key])"

definition pass_msg :: "string \<Rightarrow> string" where
  "pass_msg message = message @ '': Pass!''"

text \<open>
  The loop \<open>for (let key in expected)\<close> at the end of \<open>assertEquals\<close>. The recursive call
  is the parameter \<open>rec\<close>; it returns the updated map, and an error leaves the loop.
\<close>

fun for_in ::
  "(jsval \<Rightarrow> jsval \<Rightarrow> string list \<Rightarrow> vmap \<Rightarrow> (js_error + string \<times> vmap) option) \<Rightarrow>
   heap \<Rightarrow> string \<Rightarrow> jsval \<Rightarrow> jsval \<Rightarrow> string list \<Rightarrow> string list \<Rightarrow> vmap \<Rightarrow>
   (js_error + vmap) option" where
  \<open>for_in rec h message expected actual keyTrace [] vm = Some (Inr vm)\<close>
| \<open>for_in rec h message expected actual keyTrace (key # keys) vm =
     (let ev = get_prop h expected key; av = get_prop h actual key in
      if typeof ev = ''object'' \<or> typeof av = ''object'' then
        (case rec ev av (keyTrace @ [key]) vm of
           None \<Rightarrow> None
         | Some (Inl err) \<Rightarrow> Some (Inl err)
         | Some (Inr (s, vm')) \<Rightarrow> for_in rec h message expected actual keyTrace keys vm')
      else if \<not> strict_eq ev av then
        (if strict_eq av VUndefined then
           Some (Inl (Thrown Error MissingValue
             (message @ '': Expected '' @ key_path keyTrace key @ '' but was not found'')))
         else
           Some (Inl (Thrown Error ValueMismatch
             (message @ '': Expected '' @ key_path keyTrace key @ '' "'' @ to_string h ev
                @ ''" but found "'' @ to_string h av @ ''"''))))
      else for_in rec h message expected actual keyTrace keys vm)\<close>

text \<open>
  The branch for objects with different numbers of keys. Each of its two loops throws at
  the first key of one side whose value on the other side is \<open>undefined\<close>; when a loop
  finds no such key the code goes on. \<open>None\<close> means that nothing was thrown.
\<close>

definition scan_keys :: "heap \<Rightarrow> jsval \<Rightarrow> string list \<Rightarrow> string option" where
  "scan_keys h other keys = find (\<lambda>key. strict_eq (get_prop h other key) VUndefined) keys"

definition key_count_check ::
  "heap \<Rightarrow> string \<Rightarrow> jsval \<Rightarrow> jsval \<Rightarrow> string list \<Rightarrow> js_error option" where
  "key_count_check h message expected actual keyTrace =
     (let expectedKeys = own_keys h expected; actualKeys = own_keys h actual in
      if length expectedKeys \<noteq> length actualKeys then
        if length expectedKeys > length actualKeys then
          (case scan_keys h actual expectedKeys of
             Some key \<Rightarrow>
               Some (Thrown Error MissingKey
                 (message @ '': Expected '' @ key_path keyTrace key @ '' but was not found''))
           | None \<Rightarrow> None)
        else
          (case scan_keys h expected actualKeys of
             Some key \<Rightarrow>
               Some (Thrown Error UnexpectedKey
                 (message @ '': Found unexpected '' @ key_path keyTrace key))
           | None \<Rightarrow> None)
      else None)"

text \<open>
  \<open>assertEquals(message, expected, actual, keyTrace, map)\<close>. The first argument bounds the
  depth of the recursion: \<open>None\<close> means that the bound was reached. The result is the
  thrown error, or the returned string with the map as the call left it.
\<close>

primrec assertEquals ::
  "nat \<Rightarrow> heap \<Rightarrow> string \<Rightarrow> jsval \<Rightarrow> jsval \<Rightarrow> string list \<Rightarrow> vmap \<Rightarrow>
   (js_error + string \<times> vmap) option" where
  \<open>assertEquals 0 h message expected actual keyTrace vm = None\<close>
| \<open>assertEquals (Suc n) h message expected actual keyTrace vm =
     (if strict_eq expected actual then Some (Inr (pass_msg message, vm))
      else if map_has vm expected \<or> map_has vm actual then Some (Inr (pass_msg message, vm))
      else
        let vm1 = vm(expected \<mapsto> actual) in
        if typeof expected \<noteq> typeof actual then
          Some (Inl (Thrown TypeError TypeMismatch
            (message @ '': Expected type "'' @ typeof expected @ ''" but found type "''
               @ typeof actual @ ''"'')))
        else if isArray h expected \<noteq> isArray h actual then
          Some (Inl (Thrown TypeError ShapeMismatch
            (message @ '': Expected type "'' @ objType h expected @ ''" but found type "''
               @ objType h actual @ ''"'')))
        else if typeof actual \<noteq> ''object'' then
          (if \<not> strict_eq expected actual then
             Some (Inl (Thrown Error ValueMismatch
               (message @ '': Expected "'' @ to_string h expected @ ''" but found "''
                  @ to_string h actual @ ''"'')))
           else Some (Inr (pass_msg message, vm1)))
        else if (expected = VNull \<or> actual = VNull) \<and> \<not> strict_eq expected actual then
          Some (Inl (Thrown TypeError ShapeMismatch
            (message @ '': Expected type '' @ objType h expected @ '' but found ''
               @ objType h actual)))
        else if \<not> strict_eq (opt_length h expected) (opt_length h actual) then
          Some (Inl (Thrown Error LengthMismatch
            (message @ '': Expected array length "'' @ to_string h (opt_length h expected)
               @ ''" but found length "'' @ to_string h (opt_length h actual) @ ''"'')))
        else
          (case key_count_check h message expected actual keyTrace of
             Some err \<Rightarrow> Some (Inl err)
           | None \<Rightarrow>
               (case for_in (assertEquals n h message) h message expected actual keyTrace
                       (own_keys h expected) vm1 of
                  None \<Rightarrow> None
                | Some (Inl err) \<Rightarrow> Some (Inl err)
                | Some (Inr vm2) \<Rightarrow> Some (Inr (pass_msg message, vm2)))))\<close>

text \<open>
  The call \<open>assertEquals(message, expected, actual)\<close> that callers make: the key trace
  and the map take their defaults \<open>[]\<close> and \<open>new Map()\<close>. The depth bound is one more
  than the number of objects in the store, which is always enough (\<open>assertEquals_returns\<close>
  below).
\<close>

definition compare :: "heap \<Rightarrow> string \<Rightarrow> jsval \<Rightarrow> jsval \<Rightarrow> (js_error + string) option" where
  "compare h message expected actual =
     map_option (map_sum id fst)
       (assertEquals (Suc (length h)) h message expected actual [] Map.empty)"

section \<open>The comparator of \<open>src/index.js\<close>\<close>

text \<open>
  \<open>src/index.js\<close> holds an earlier \<open>assertEquals\<close>: no identity check, no map of
  visited values, no key-count branch, the key trace a string (\<open>undefined\<close> at the top
  level), and a pass message that prints both values. Without the map its recursion does
  not end on a cyclic store; here the depth bound then gives \<open>None\<close>.
\<close>

text \<open>\<open>keyTrace ? ... : ...\<close> and \<open>`${keyTrace}`\<close> on a trace that is a string or \<open>undefined\<close>.\<close>

definition trace_truthy :: "string option \<Rightarrow> bool" where
  "trace_truthy keyTrace = (case keyTrace of None \<Rightarrow> False | Some s \<Rightarrow> s \<noteq> [])"

definition trace_string :: "string option \<Rightarrow> string" where
  "trace_string keyTrace = (case keyTrace of None \<Rightarrow> ''undefined'' | Some s \<Rightarrow> s)"

definition pass_msg_index_js :: "heap \<Rightarrow> string \<Rightarrow> jsval \<Rightarrow> jsval \<Rightarrow> string" where
  \<open>pass_msg_index_js h message expected actual =
     message @ '': Pass! "'' @ to_string h expected @ ''" equals "'' @ to_string h actual @ ''"''\<close>

fun for_in_index_js ::
  "(jsval \<Rightarrow> jsval \<Rightarrow> string option \<Rightarrow> (js_error + string) option) \<Rightarrow>
   heap \<Rightarrow> string \<Rightarrow> jsval \<Rightarrow> jsval \<Rightarrow> string option \<Rightarrow> string list \<Rightarrow>
   (js_error + unit) option" where
  \<open>for_in_index_js rec h message expected actual keyTrace [] = Some (Inr ())\<close>
| \<open>for_in_index_js rec h message expected actual keyTrace (key # keys) =
     (let ev = get_prop h expected key; av = get_prop h actual key in
      if typeof ev = ''object'' \<or> typeof av = ''object'' then
        (case rec ev av
                (Some ((if trace_truthy keyTrace then trace_string keyTrace @ ''.'' else []) @ key)) of
           None \<Rightarrow> None
         | Some (Inl err) \<Rightarrow> Some (Inl err)
         | Some (Inr s) \<Rightarrow> for_in_index_js rec h message expected actual keyTrace keys)
      else if \<not> strict_eq ev av then
        Some (Inl (Thrown Error ValueMismatch
          (message @ '': Expected '' @ trace_string keyTrace @ ''.'' @ key @ '' "'' @ to_string h ev
             @ ''" but found "'' @ to_string h av @ ''"'')))
      else for_in_index_js rec h message expected actual keyTrace keys)\<close>

primrec assertEquals_index_js ::
  "nat \<Rightarrow> heap \<Rightarrow> string \<Rightarrow> jsval \<Rightarrow> jsval \<Rightarrow> string option \<Rightarrow> (js_error + string) option" where
  \<open>assertEquals_index_js 0 h message expected actual keyTrace = None\<close>
| \<open>assertEquals_index_js (Suc n) h message expected actual keyTrace =
     (if typeof expected \<noteq> typeof actual then
        Some (Inl (Thrown TypeError TypeMismatch
          (message @ '': Expected type "'' @ typeof expected @ ''" but found type "''
             @ typeof actual @ ''"'')))
      else if isArray h expected \<noteq> isArray h actual then
        Some (Inl (Thrown TypeError ShapeMismatch
          (message @ '': Expected type "'' @ objType h expected @ ''" but found type "''
             @ objType h actual @ ''"'')))
      else if typeof actual \<noteq> ''object'' then
        (if \<not> strict_eq expected actual then
           Some (Inl (Thrown Error ValueMismatch
             (message @ '': Expected "'' @ to_string h expected @ ''" but found "''
                @ to_string h actual @ ''"'')))
         else Some (Inr (pass_msg_index_js h message expected actual)))
      else if (expected = VNull \<or> actual = VNull) \<and> \<not> strict_eq expected actual then
        Some (Inl (Thrown Error ShapeMismatch
          (message @ '': Expected type '' @ objType h expected @ '' but found ''
             @ objType h actual)))
      else if \<not> strict_eq (opt_length h expected) (opt_length h actual) then
        Some (Inl (Thrown Error LengthMismatch
          (message @ '': Expected array length "'' @ to_string h (opt_length h expected)
             @ ''" but found length "'' @ to_string h (opt_length h actual) @ ''"'')))
      else
        (case for_in_index_js (assertEquals_index_js n h message) h message expected actual
                keyTrace (own_keys h expected) of
           None \<Rightarrow> None
         | Some (Inl err) \<Rightarrow> Some (Inl err)
         | Some (Inr u) \<Rightarrow> Some (Inr (pass_msg_index_js h message expected actual))))\<close>

section \<open>The runner\<close>

record testcase =
  message :: string
  expected :: jsval
  actual :: jsval

text \<open>\<open>runTest\<close>: \<open>try { return assertEquals(...) } catch (error) { return error.message }\<close>.\<close>

definition runTest :: "heap \<Rightarrow> testcase \<Rightarrow> string option" where
  "runTest h tc =
     (case compare h (message tc) (expected tc) (actual tc) of
        None \<Rightarrow> None
      | Some (Inr s) \<Rightarrow> Some s
      | Some (Inl err) \<Rightarrow> Some (err_message err))"


section \<open>Stores of the scenarios\<close>

text \<open>\<open>{a:1, b:{c:2}}\<close> at address 0 and \<open>{a:1, b:{c:3}}\<close> at address 2.\<close>

definition heap_nested :: heap where
  "heap_nested =
     [Obj [(''a'', VNum (JInt 1)), (''b'', VRef 1)], Obj [(''c'', VNum (JInt 2))],
      Obj [(''a'', VNum (JInt 1)), (''b'', VRef 3)], Obj [(''c'', VNum (JInt 3))]]"

text \<open>\<open>["a","b"]\<close> at address 0 and \<open>["a","b","c"]\<close> at address 1.\<close>

definition heap_lengths :: heap where
  "heap_lengths = [Arr [VStr ''a'', VStr ''b''], Arr [VStr ''a'', VStr ''b'', VStr ''c'']]"

text \<open>\<open>a = {self: a}\<close> at address 0 and \<open>c = {self: c}\<close> at address 1.\<close>

definition heap_self :: heap where
  "heap_self = [Obj [(''self'', VRef 0)], Obj [(''self'', VRef 1)]]"

text \<open>
  \<open>{x:s, y:s}\<close> at address 0 with \<open>s = {p:1}\<close> at address 1, and
  \<open>{x:{p:1}, y:{p:2}}\<close> at address 2 with its two objects at addresses 3 and 4.
\<close>

definition heap_shared :: heap where
  "heap_shared =
     [Obj [(''x'', VRef 1), (''y'', VRef 1)], Obj [(''p'', VNum (JInt 1))],
      Obj [(''x'', VRef 3), (''y'', VRef 4)], Obj [(''p'', VNum (JInt 1))],
      Obj [(''p'', VNum (JInt 2))]]"

text \<open>\<open>{a:1}\<close> and \<open>{a:"1"}\<close>; \<open>{a:{}}\<close> and \<open>{a:1}\<close>.\<close>

definition heap_num_str :: heap where
  "heap_num_str = [Obj [(''a'', VNum (JInt 1))], Obj [(''a'', VStr ''1'')]]"

definition heap_obj_num :: heap where
  "heap_obj_num = [Obj [(''a'', VRef 2)], Obj [(''a'', VNum (JInt 1))], Obj []]"

text \<open>\<open>{a:'a'}\<close> and \<open>{a:'a', c:'c'}\<close>; \<open>{a:1, b:2, c:3}\<close> and \<open>{a:undefined, c:3}\<close>.\<close>

definition heap_extra_key :: heap where
  "heap_extra_key = [Obj [(''a'', VStr ''a'')], Obj [(''a'', VStr ''a''), (''c'', VStr ''c'')]]"

definition heap_undef_key :: heap where
  "heap_undef_key =
     [Obj [(''a'', VNum (JInt 1)), (''b'', VNum (JInt 2)), (''c'', VNum (JInt 3))],
      Obj [(''a'', VUndefined), (''c'', VNum (JInt 3))]]"

text \<open>\<open>{a:'a'}\<close> and \<open>{a:'a', constructor:'c'}\<close>.\<close>

definition heap_inherited_key :: heap where
  "heap_inherited_key =
     [Obj [(''a'', VStr ''a'')], Obj [(''a'', VStr ''a''), (''constructor'', VStr ''c'')]]"

text \<open>
  Every reference stored in the object at address \<open>i\<close> points to an address above \<open>i\<close>:
  a store with this property has no reference cycle.
\<close>

fun obj_values :: "jsobj \<Rightarrow> jsval list" where
  "obj_values (Arr xs) = xs"
| "obj_values (Obj kvs) = map snd kvs"

fun points_above :: "nat \<Rightarrow> jsval \<Rightarrow> bool" where
  "points_above i (VRef a) = (i < a)"
| "points_above i _ = True"

definition refs_forward :: "heap \<Rightarrow> bool" where
  "refs_forward h = list_all (\<lambda>i. list_all (points_above i) (obj_values (h ! i))) [0..<length h]"

text \<open>The objects of the store that the map has not recorded as a key.\<close>

definition unvisited :: "heap \<Rightarrow> vmap \<Rightarrow> addr set" where
  "unvisited h vm = {a. a < length h \<and> vm (VRef a) = None}"

text \<open>The conditions under which a call of \<open>assertEquals\<close> reaches its loop.\<close>

definition enters_loop ::
  "heap \<Rightarrow> string \<Rightarrow> jsval \<Rightarrow> jsval \<Rightarrow> string list \<Rightarrow> vmap \<Rightarrow> bool" where
  "enters_loop h m e a kt vm =
     (\<not> strict_eq e a \<and> \<not> map_has vm e \<and> \<not> map_has vm a \<and> typeof e = typeof a
      \<and> isArray h e = isArray h a \<and> typeof a = ''object''
      \<and> e \<noteq> VNull \<and> a \<noteq> VNull
      \<and> strict_eq (opt_length h e) (opt_length h a)
      \<and> key_count_check h m e a kt = None)"

text \<open>The two kinds of composite: an ordered sequence (array) and a keyed mapping (plain object).\<close>

definition is_seq :: "heap \<Rightarrow> jsval \<Rightarrow> bool" where
  "is_seq h v =
     (case v of
        VRef a \<Rightarrow> (case deref h a of Some (Arr xs) \<Rightarrow> True | _ \<Rightarrow> False)
      | _ \<Rightarrow> False)"

definition is_mapping :: "heap \<Rightarrow> jsval \<Rightarrow> bool" where
  "is_mapping h v =
     (case v of
        VRef a \<Rightarrow> (case deref h a of Some (Obj kvs) \<Rightarrow> True | _ \<Rightarrow> False)
      | _ \<Rightarrow> False)"

section \<open>Facts about the operators\<close>

lemmas js_defs = strict_eq_def map_has_def isArray_def deref_def opt_length_def get_prop_def
  object_prototype_get_def array_prototype_get_def object_prototype_functions_def
  array_prototype_functions_def fun_name_def
  own_keys_def scan_keys_def key_count_check_def key_path_def to_string_def show_int_def
  digit_char_def pass_msg_def objType_def

lemma to_string_nat: "to_string h (VNum (JInt (int n))) = show_nat n"
  by (simp add: to_string_def show_int_def)

lemma digit_val_char: "d < 10 \<Longrightarrow> digit_val (digit_char d) = d"
proof -
  assume "d < 10"
  then have "d = 0 \<or> d = 1 \<or> d = 2 \<or> d = 3 \<or> d = 4 \<or> d = 5 \<or> d = 6 \<or> d = 7
    \<or> d = 8 \<or> d = 9" by arith
  then show ?thesis
    by (elim disjE) (simp_all add: digit_char_def digit_val_def)
qed

lemma read_show_nat: "read_nat (show_nat n) = n"
proof (induction n rule: show_nat.induct)
  case (1 n)
  show ?case
  proof (cases "n < 10")
    case True
    then show ?thesis
      by (subst show_nat.simps) (simp add: read_nat_def digit_val_char)
  next
    case False
    with 1 have "read_nat (show_nat (n div 10)) = n div 10" by simp
    with False show ?thesis
      by (subst show_nat.simps) (simp add: read_nat_def digit_val_char)
  qed
qed

lemma show_nat_inj: "show_nat m = show_nat n \<Longrightarrow> m = n"
  by (metis read_show_nat)

lemma typeof_neq_strict: "typeof x \<noteq> typeof y \<Longrightarrow> \<not> strict_eq x y"
  by (auto simp: strict_eq_def)

lemma typeof_object_cases:
  "typeof v = ''object'' \<Longrightarrow> v = VNull \<or> (\<exists>a. v = VRef a) \<or> (\<exists>p. v = VProto p)"
  by (cases v) simp_all

lemma wf_heap_deref: "wf_heap h \<Longrightarrow> deref h a = Some ob \<Longrightarrow> wf_obj h ob"
  by (auto simp: wf_heap_def deref_def list_all_iff split: if_splits)

lemma object_prototype_get_wf: "wf_val h rp \<Longrightarrow> wf_val h (object_prototype_get rp key)"
  by (simp add: object_prototype_get_def)

lemma array_prototype_get_wf: "wf_val h rp \<Longrightarrow> wf_val h (array_prototype_get rp key)"
  by (simp add: array_prototype_get_def object_prototype_get_wf)

lemma get_prop_wf:
  assumes "wf_heap h"
  shows "wf_val h (get_prop h v key)"
proof (cases v)
  case (VRef a)
  show ?thesis
  proof (cases "deref h a")
    case None
    with VRef show ?thesis by (simp add: get_prop_def)
  next
    case (Some ob)
    with assms have wf: "wf_obj h ob" by (rule wf_heap_deref)
    show ?thesis
    proof (cases ob)
      case (Arr xs)
      { fix i assume "find (\<lambda>i. show_nat i = key) [0..<length xs] = Some i"
        then have "i < length xs" by (auto simp: find_Some_iff)
        with wf Arr have "wf_val h (xs ! i)" by (simp add: list_all_length) }
      with VRef Some Arr show ?thesis
        by (simp add: get_prop_def array_prototype_get_wf split: option.splits)
    next
      case (Obj kvs)
      { fix x assume "map_of kvs key = Some x"
        then have "x \<in> snd ` set kvs" by (force dest: map_of_SomeD)
        with wf Obj have "wf_val h x" by (auto simp: list_all_iff) }
      with VRef Some Obj show ?thesis
        by (simp add: get_prop_def object_prototype_get_wf split: option.splits)
    qed
  qed
next
  case (VProto p)
  then show ?thesis
    by (cases p) (simp_all add: get_prop_def object_prototype_get_wf array_prototype_get_wf)
qed (simp_all add: get_prop_def)

section \<open>The recursion is bounded by the number of objects\<close>

text \<open>
  A call that gets past the cycle guard and reaches the loop has a reference as
  \<open>expected\<close> and records it in the map, and the map never loses a key. So every level
  of the recursion uses up one object of the store.
\<close>

lemma finite_unvisited: "finite (unvisited h vm)"
  by (simp add: unvisited_def)

lemma unvisited_mono: "dom vm \<subseteq> dom vm' \<Longrightarrow> card (unvisited h vm') \<le> card (unvisited h vm)"
  by (rule card_mono[OF finite_unvisited]) (auto simp: unvisited_def)

lemma unvisited_set:
  assumes "a < length h" "vm (VRef a) = None"
  shows "card (unvisited h (vm(VRef a \<mapsto> v))) < card (unvisited h vm)"
proof (rule psubset_card_mono[OF finite_unvisited])
  show "unvisited h (vm(VRef a \<mapsto> v)) \<subset> unvisited h vm"
    using assms by (auto simp: unvisited_def)
qed

lemma unvisited_empty: "card (unvisited h Map.empty) = length h"
  by (simp add: unvisited_def)

lemma for_in_returns:
  assumes wf: "wf_heap h"
    and rec_ok: "\<And>ev av kt' vm. wf_val h ev \<Longrightarrow> wf_val h av \<Longrightarrow> card (unvisited h vm) < n \<Longrightarrow>
        \<exists>r. rec ev av kt' vm = Some r \<and> (\<forall>s vm'. r = Inr (s, vm') \<longrightarrow> dom vm \<subseteq> dom vm')"
  shows "card (unvisited h vm) < n \<Longrightarrow>
     \<exists>r. for_in rec h m e a kt keys vm = Some r \<and> (\<forall>vm'. r = Inr vm' \<longrightarrow> dom vm \<subseteq> dom vm')"
proof (induction keys arbitrary: vm)
  case Nil
  show ?case by simp
next
  case (Cons key keys)
  let ?ev = "get_prop h e key" and ?av = "get_prop h a key"
  show ?case
  proof (cases "typeof ?ev = ''object'' \<or> typeof ?av = ''object''")
    case False
    then show ?thesis using Cons by (simp add: Let_def)
  next
    case True
    from rec_ok[OF get_prop_wf[OF wf] get_prop_wf[OF wf] Cons.prems, of e key a key "kt @ [key]"]
    obtain r where r: "rec ?ev ?av (kt @ [key]) vm = Some r"
      and mono: "\<And>s vm'. r = Inr (s, vm') \<Longrightarrow> dom vm \<subseteq> dom vm'" by blast
    show ?thesis
    proof (cases r)
      case (Inl err)
      with r True show ?thesis by (simp add: Let_def)
    next
      case (Inr p)
      obtain s vm1 where p: "p = (s, vm1)" by (cases p)
      from mono[of s vm1] Inr p have sub: "dom vm \<subseteq> dom vm1" by simp
      with Cons.prems unvisited_mono[OF sub, of h] have "card (unvisited h vm1) < n" by simp
      from Cons.IH[OF this] obtain r' where
        r': "for_in rec h m e a kt keys vm1 = Some r'"
        and mono': "\<And>vm'. r' = Inr vm' \<Longrightarrow> dom vm1 \<subseteq> dom vm'" by blast
      from r Inr p True r' have "for_in rec h m e a kt (key # keys) vm = Some r'"
        by (simp add: Let_def)
      with sub mono' show ?thesis by blast
    qed
  qed
qed

lemma assertEquals_returns_gen:
  assumes wf: "wf_heap h"
  shows "wf_val h e \<Longrightarrow> wf_val h a \<Longrightarrow> card (unvisited h vm) < n \<Longrightarrow>
     \<exists>r. assertEquals n h m e a kt vm = Some r \<and> (\<forall>s vm'. r = Inr (s, vm') \<longrightarrow> dom vm \<subseteq> dom vm')"
proof (induction n arbitrary: e a kt vm)
  case 0
  then show ?case by simp
next
  case (Suc n)
  let ?vm1 = "vm(e \<mapsto> a)"
  show ?case
  proof (cases "\<not> strict_eq e a \<and> \<not> map_has vm e \<and> \<not> map_has vm a \<and> typeof e = typeof a
        \<and> typeof a = ''object'' \<and> e \<noteq> VNull \<and> a \<noteq> VNull")
    case False
    then show ?thesis
      by (auto simp: Let_def typeof_neq_strict)
  next
    case True
    have "\<exists>r. for_in (assertEquals n h m) h m e a kt (own_keys h e) ?vm1 = Some r
        \<and> (\<forall>vm'. r = Inr vm' \<longrightarrow> dom ?vm1 \<subseteq> dom vm')"
    proof (cases "\<exists>ea. e = VRef ea")
      case False
      with True typeof_object_cases[of e] obtain p where "e = VProto p" by auto
      then have "own_keys h e = []" by (simp add: own_keys_def)
      then show ?thesis by auto
    next
      case True': True
      then obtain ea where e: "e = VRef ea" by blast
      from Suc.prems(1) e have ea: "ea < length h" by simp
      from True have fresh: "vm (VRef ea) = None" by (simp add: e map_has_def)
      from unvisited_set[of ea h vm a, OF ea fresh] Suc.prems(3)
      have small: "card (unvisited h ?vm1) < n"
        by (simp add: e)
      show ?thesis
        by (rule for_in_returns[OF wf _ small]) (rule Suc.IH)
    qed
    then obtain r where r: "for_in (assertEquals n h m) h m e a kt (own_keys h e) ?vm1 = Some r"
      and mono: "\<And>vm'. r = Inr vm' \<Longrightarrow> dom ?vm1 \<subseteq> dom vm'" by blast
    have sub: "dom vm \<subseteq> dom ?vm1" by auto
    show ?thesis
    proof (cases r)
      case (Inl err)
      with r show ?thesis by (auto simp: Let_def split: option.splits)
    next
      case (Inr vm2)
      with mono[of vm2] sub have "dom vm \<subseteq> dom vm2" by blast
      with r Inr show ?thesis by (auto simp: Let_def split: option.splits)
    qed
  qed
qed

lemma assertEquals_returns:
  assumes "wf_heap h" "wf_val h e" "wf_val h a" "length h < n"
  shows "\<exists>r. assertEquals n h m e a kt Map.empty = Some r"
  using assertEquals_returns_gen[OF assms(1-3), of Map.empty n m kt] assms(4)
  by (auto simp: unvisited_empty)

section \<open>A larger depth bound does not change the result\<close>

lemma for_in_more_fuel:
  assumes "\<And>ev av kt' vm r. rec ev av kt' vm = Some r \<Longrightarrow> rec' ev av kt' vm = Some r"
  shows "for_in rec h m e a kt keys vm = Some r \<Longrightarrow> for_in rec' h m e a kt keys vm = Some r"
proof (induction keys arbitrary: vm)
  case Nil
  then show ?case by simp
next
  case (Cons key keys)
  show ?case
  proof (cases "typeof (get_prop h e key) = ''object'' \<or> typeof (get_prop h a key) = ''object''")
    case False
    with Cons show ?thesis by (auto simp: Let_def split: if_splits)
  next
    case True
    with Cons.prems obtain r1 where r1: "rec (get_prop h e key) (get_prop h a key) (kt @ [key]) vm = Some r1"
      by (auto simp: Let_def split: option.splits)
    from assms[OF r1] have r1': "rec' (get_prop h e key) (get_prop h a key) (kt @ [key]) vm = Some r1" .
    show ?thesis
    proof (cases r1)
      case (Inl err)
      with Cons.prems r1 r1' True show ?thesis by (simp add: Let_def)
    next
      case (Inr p)
      obtain s vm1 where "p = (s, vm1)" by (cases p)
      with Cons.prems r1 r1' True Inr Cons.IH[of vm1] show ?thesis by (simp add: Let_def)
    qed
  qed
qed


lemma assertEquals_loop:
  assumes "enters_loop h m e a kt vm"
  shows "assertEquals (Suc n) h m e a kt vm =
     (case for_in (assertEquals n h m) h m e a kt (own_keys h e) (vm(e \<mapsto> a)) of
        None \<Rightarrow> None
      | Some (Inl err) \<Rightarrow> Some (Inl err)
      | Some (Inr vm2) \<Rightarrow> Some (Inr (pass_msg m, vm2)))"
proof -
  from assms have g: "\<not> strict_eq e a" "\<not> map_has vm e" "\<not> map_has vm a" "typeof e = ''object''"
    "isArray h e = isArray h a" "typeof a = ''object''" "e \<noteq> VNull" "a \<noteq> VNull"
    "strict_eq (opt_length h e) (opt_length h a)" "key_count_check h m e a kt = None"
    by (simp_all add: enters_loop_def)
  show ?thesis
    unfolding assertEquals.simps Let_def
    by (simp only: g if_False if_True simp_thms refl option.case)
qed

lemma assertEquals_no_loop:
  assumes "\<not> enters_loop h m e a kt vm"
  shows "assertEquals (Suc n) h m e a kt vm = assertEquals (Suc k) h m e a kt vm"
proof -
  consider "strict_eq e a" | "\<not> strict_eq e a" "map_has vm e \<or> map_has vm a"
    | "\<not> strict_eq e a" "\<not> (map_has vm e \<or> map_has vm a)" "typeof e \<noteq> typeof a"
    | "\<not> strict_eq e a" "\<not> (map_has vm e \<or> map_has vm a)" "typeof e = typeof a"
      "isArray h e \<noteq> isArray h a"
    | "\<not> strict_eq e a" "\<not> (map_has vm e \<or> map_has vm a)" "typeof e = typeof a"
      "isArray h e = isArray h a" "typeof a \<noteq> ''object''"
    | "\<not> strict_eq e a" "\<not> (map_has vm e \<or> map_has vm a)" "typeof e = typeof a"
      "isArray h e = isArray h a" "typeof a = ''object''" "e = VNull \<or> a = VNull"
    | "\<not> strict_eq e a" "\<not> (map_has vm e \<or> map_has vm a)" "typeof e = typeof a"
      "isArray h e = isArray h a" "typeof a = ''object''" "\<not> (e = VNull \<or> a = VNull)"
      "\<not> strict_eq (opt_length h e) (opt_length h a)"
    | err where "\<not> strict_eq e a" "\<not> (map_has vm e \<or> map_has vm a)" "typeof e = typeof a"
      "isArray h e = isArray h a" "typeof a = ''object''" "\<not> (e = VNull \<or> a = VNull)"
      "strict_eq (opt_length h e) (opt_length h a)" "key_count_check h m e a kt = Some err"
    using assms not_None_eq[of "key_count_check h m e a kt"] unfolding enters_loop_def by blast
  then show ?thesis
    unfolding assertEquals.simps Let_def
    by cases (simp_all only: if_False if_True simp_thms refl not_False_eq_True option.case)
qed

lemma assertEquals_more_fuel:
  "assertEquals n h m e a kt vm = Some r \<Longrightarrow> n \<le> n' \<Longrightarrow> assertEquals n' h m e a kt vm = Some r"
proof (induction n arbitrary: n' e a kt vm r)
  case 0
  then show ?case by simp
next
  case (Suc n)
  from Suc.prems(2) obtain k where k: "n' = Suc k" and le: "n \<le> k" by (cases n') auto
  let ?loop = "\<lambda>f. for_in (assertEquals f h m) h m e a kt (own_keys h e) (vm(e \<mapsto> a))"
  show ?case
  proof (cases "enters_loop h m e a kt vm")
    case False
    from assertEquals_no_loop[OF False, where n = n and k = k] Suc.prems(1) show ?thesis
      unfolding k by simp
  next
    case True
    note eqn = assertEquals_loop[OF True]
    from Suc.prems(1) obtain r1 where r1: "?loop n = Some r1"
      unfolding eqn by (auto split: option.splits)
    have "?loop k = Some r1"
      by (rule for_in_more_fuel[OF _ r1]) (rule Suc.IH[OF _ le])
    with r1 Suc.prems(1) show ?thesis unfolding k eqn by simp
  qed
qed

section \<open>Keys, shapes and the pass message\<close>

lemma get_prop_obj:
  "deref h a = Some (Obj kvs) \<Longrightarrow>
   get_prop h (VRef a) key =
     (case map_of kvs key of
        Some x \<Rightarrow> x
      | None \<Rightarrow> object_prototype_get (VProto ObjectPrototype) key)"
  by (simp add: get_prop_def)

lemma own_keys_obj: "deref h a = Some (Obj kvs) \<Longrightarrow> own_keys h (VRef a) = map fst kvs"
  by (simp add: own_keys_def)

lemma object_prototype_get_undefined:
  "object_prototype_get (VProto p) key = VUndefined \<longleftrightarrow> \<not> object_prototype_has key"
  by (simp add: object_prototype_get_def object_prototype_has_def)

lemma get_prop_undefined_iff:
  assumes "deref h a = Some (Obj kvs)"
  shows "get_prop h (VRef a) key = VUndefined \<longleftrightarrow>
         (key \<notin> fst ` set kvs \<and> \<not> object_prototype_has key) \<or> map_of kvs key = Some VUndefined"
  by (auto simp: get_prop_obj[OF assms] object_prototype_get_undefined
      map_of_eq_None_iff[symmetric] split: option.splits)

lemma strict_eq_undefined: "strict_eq x VUndefined = (x = VUndefined)"
  by (auto simp: strict_eq_def)

lemma find_first:
  "find P xs = Some x \<Longrightarrow> \<exists>pre post. xs = pre @ x # post \<and> P x \<and> (\<forall>k\<in>set pre. \<not> P k)"
proof (induction xs)
  case Nil
  then show ?case by simp
next
  case (Cons y ys)
  show ?case
  proof (cases "P y")
    case True
    with Cons.prems have "x = y" by simp
    with True have "y # ys = [] @ x # ys \<and> P x \<and> (\<forall>k\<in>set []. \<not> P k)" by simp
    then show ?thesis by blast
  next
    case False
    with Cons obtain pre post where "ys = pre @ x # post" "P x" "\<forall>k\<in>set pre. \<not> P k" by auto
    with False have "y # ys = (y # pre) @ x # post \<and> P x \<and> (\<forall>k\<in>set (y # pre). \<not> P k)" by simp
    then show ?thesis by blast
  qed
qed

lemma more_keys:
  assumes "distinct xs" "length ys < length xs"
  shows "\<exists>x\<in>set xs. x \<notin> set ys"
proof (rule ccontr)
  assume "\<not> (\<exists>x\<in>set xs. x \<notin> set ys)"
  then have "set xs \<subseteq> set ys" by blast
  then have "card (set xs) \<le> card (set ys)" by (simp add: card_mono)
  also have "\<dots> \<le> length ys" by (rule card_length)
  finally show False using assms by (simp add: distinct_card)
qed

lemma scan_keys_finds:
  assumes "deref h s = Some (Obj small)" "distinct (map fst big)" "length small < length big"
    and "\<forall>k\<in>set (map fst big). \<not> object_prototype_has k"
  shows "\<exists>key. scan_keys h (VRef s) (map fst big) = Some key"
proof -
  from more_keys[of "map fst big" "map fst small"] assms(2,3)
  obtain k where k: "k \<in> set (map fst big)" "k \<notin> set (map fst small)" by auto
  from k(1) assms(4) have "\<not> object_prototype_has k" by blast
  with k(2) have "get_prop h (VRef s) k = VUndefined"
    using get_prop_undefined_iff[OF assms(1), of k] by simp
  with k(1) have "\<exists>x\<in>set (map fst big). strict_eq (get_prop h (VRef s) x) VUndefined"
    by (auto simp: strict_eq_def)
  then show ?thesis
    unfolding scan_keys_def by (cases "find (\<lambda>key. strict_eq (get_prop h (VRef s) key) VUndefined) (map fst big)")
      (auto simp: find_None_iff)
qed

lemma scan_keys_first:
  assumes "scan_keys h other keys = Some key"
  shows "\<exists>pre post. keys = pre @ key # post \<and> get_prop h other key = VUndefined
           \<and> (\<forall>k\<in>set pre. get_prop h other k \<noteq> VUndefined)"
  using find_first[OF assms[unfolded scan_keys_def]] by (simp add: strict_eq_undefined)

lemma is_mapping_D: "is_mapping h v \<Longrightarrow> \<not> isArray h v \<and> v \<noteq> VNull \<and> typeof v = ''object''"
  by (auto simp: is_mapping_def isArray_def split: jsval.splits option.splits jsobj.splits)

lemma is_seq_D: "is_seq h v \<Longrightarrow> isArray h v \<and> v \<noteq> VNull \<and> typeof v = ''object''"
  by (auto simp: is_seq_def isArray_def split: jsval.splits option.splits jsobj.splits)

lemma compare_reflexive: "x \<noteq> VNum JNaN \<Longrightarrow> compare h m x x = Some (Inr (pass_msg m))"
  by (simp add: compare_def strict_eq_def)

lemma assertEquals_pass:
  "assertEquals n h m e a kt vm = Some (Inr (s, vm')) \<Longrightarrow> s = pass_msg m"
  by (cases n) (auto simp: Let_def split: if_splits option.splits sum.splits)

lemma compare_pass: "compare h m e a = Some (Inr s) \<Longrightarrow> s = pass_msg m"
proof -
  define top where "top = assertEquals (Suc (length h)) h m e a [] Map.empty"
  assume "compare h m e a = Some (Inr s)"
  then have "map_option (map_sum id fst) top = Some (Inr s)"
    by (simp only: compare_def top_def)
  then obtain r where r: "top = Some r" and s: "map_sum id fst r = Inr s"
    by auto
  from s obtain vm' where "r = Inr (s, vm')" by (cases r) auto
  with r have "assertEquals (Suc (length h)) h m e a [] Map.empty = Some (Inr (s, vm'))"
    by (simp only: top_def)
  then show ?thesis by (rule assertEquals_pass)
qed


section \<open>Properties of the comparator\<close>

subsection \<open>Reflexivity\<close>

text \<open>
  Claim C1. \<open>compare(m, x, x)\<close> is meant to succeed for every value \<open>x\<close>. The identity
  check is \<open>expected === actual\<close>, and \<open>NaN === NaN\<close> is false: the call
  \<open>compare("t", NaN, NaN)\<close> goes on to the value comparison and throws, with a message
  that expects \<open>NaN\<close> and finds \<open>NaN\<close>. For every other value the call succeeds
  (\<open>compare_reflexive\<close>), self-referential objects included.
\<close>

theorem nan_not_reflexive:
  \<open>compare [] ''t'' (VNum JNaN) (VNum JNaN) =
     Some (Inl (Thrown Error ValueMismatch ''t: Expected "NaN" but found "NaN"''))\<close>
  by (simp add: compare_def js_defs)

subsection \<open>Termination on cyclic stores\<close>

text \<open>
  Claim C2. On every well-formed store, cyclic or not, the comparison returns: the depth
  bound of \<open>compare\<close> is never reached, and every larger bound gives the same result.
  In particular the two independent self-referential objects \<open>a = {self: a}\<close> and
  \<open>c = {self: c}\<close> compare as equal.
\<close>

theorem cycle_termination:
  "(wf_heap h \<and> wf_val h e \<and> wf_val h a \<longrightarrow>
      (\<exists>r. compare h m e a = Some r)
      \<and> (\<forall>n. length h < n \<longrightarrow>
            assertEquals n h m e a [] Map.empty
            = assertEquals (Suc (length h)) h m e a [] Map.empty))
   \<and> wf_heap heap_self
   \<and> compare heap_self m (VRef 0) (VRef 1) = Some (Inr (pass_msg m))"
proof (intro conjI impI allI)
  assume wf: "wf_heap h \<and> wf_val h e \<and> wf_val h a"
  then obtain r where r: "assertEquals (Suc (length h)) h m e a [] Map.empty = Some r"
    using assertEquals_returns[of h e a "Suc (length h)" m "[]"] by auto
  then show "\<exists>r. compare h m e a = Some r" by (simp add: compare_def)
  fix n assume "length h < n"
  then have "Suc (length h) \<le> n" by simp
  from assertEquals_more_fuel[OF r this] r
  show "assertEquals n h m e a [] Map.empty = assertEquals (Suc (length h)) h m e a [] Map.empty"
    by simp
next
  show "wf_heap heap_self" by (simp add: wf_heap_def heap_self_def)
  show "compare heap_self m (VRef 0) (VRef 1) = Some (Inr (pass_msg m))"
    by (simp add: compare_def heap_self_def js_defs)
qed

theorem cycle_termination_witness:
  "wf_heap heap_self \<and> wf_val heap_self (VRef 0) \<and> wf_val heap_self (VRef 1)
   \<and> compare heap_self ''t'' (VRef 0) (VRef 1) = Some (Inr ''t: Pass!'')
   \<and> assertEquals 7 heap_self ''t'' (VRef 0) (VRef 1) [] Map.empty
       = assertEquals (Suc (length heap_self)) heap_self ''t'' (VRef 0) (VRef 1) [] Map.empty"
proof -
  have wf: "wf_heap heap_self \<and> wf_val heap_self (VRef 0) \<and> wf_val heap_self (VRef 1)"
    by (simp add: wf_heap_def heap_self_def)
  have n: "length heap_self < 7" by (simp add: heap_self_def)
  from cycle_termination[of heap_self "VRef 0" "VRef 1" "''t''"] wf n
  show ?thesis by (simp add: pass_msg_def)
qed

subsection \<open>A nested value mismatch\<close>

text \<open>
  Claim C3. Comparing \<open>{a:1, b:{c:2}}\<close> with \<open>{a:1, b:{c:3}}\<close> fails with a value
  mismatch whose message holds the dotted path \<open>b.c\<close> and the two values 2 and 3.
\<close>

theorem nested_value_mismatch:
  \<open>compare heap_nested ''t'' (VRef 0) (VRef 2) =
     Some (Inl (Thrown Error ValueMismatch
       (''t: Expected '' @ ''b.c'' @ '' "'' @ ''2'' @ ''" but found "'' @ ''3'' @ ''"'')))\<close>
  by (simp add: compare_def heap_nested_def js_defs show_nat.simps)

subsection \<open>Shape mismatch\<close>

text \<open>
  Claim C4. When one operand is an array and the other a plain object, or exactly one of
  two composites is \<open>null\<close>, the comparison fails with a shape mismatch whose message
  names the two sides, each as \<open>Array\<close>, \<open>Object\<close> or \<open>Null\<close>.
\<close>

theorem shape_mismatch:
  assumes "(is_seq h e \<and> is_mapping h a) \<or> (is_mapping h e \<and> is_seq h a)
         \<or> (e = VNull \<and> (is_seq h a \<or> is_mapping h a))
         \<or> ((is_seq h e \<or> is_mapping h e) \<and> a = VNull)"
  shows \<open>compare h m e a =
     Some (Inl (Thrown TypeError ShapeMismatch
       (if isArray h e \<noteq> isArray h a
        then m @ '': Expected type "'' @ objType h e @ ''" but found type "'' @ objType h a @ ''"''
        else m @ '': Expected type '' @ objType h e @ '' but found '' @ objType h a)))
   \<and> objType h e \<in> {''Array'', ''Object'', ''Null''}
   \<and> objType h a \<in> {''Array'', ''Object'', ''Null''}
   \<and> objType h e \<noteq> objType h a\<close>
proof -
  from assms consider
      (sm) "is_seq h e" "is_mapping h a" | (ms) "is_mapping h e" "is_seq h a"
    | (ns) "e = VNull" "is_seq h a" | (nm) "e = VNull" "is_mapping h a"
    | (sn) "is_seq h e" "a = VNull" | (mn) "is_mapping h e" "a = VNull"
    by blast
  then show ?thesis
  proof cases
    case sm
    from is_seq_D[OF sm(1)] is_mapping_D[OF sm(2)] show ?thesis
      by (auto simp: compare_def strict_eq_def map_has_def objType_def)
  next
    case ms
    from is_mapping_D[OF ms(1)] is_seq_D[OF ms(2)] show ?thesis
      by (auto simp: compare_def strict_eq_def map_has_def objType_def)
  next
    case ns
    from is_seq_D[OF ns(2)] ns(1) show ?thesis
      by (auto simp: compare_def strict_eq_def map_has_def objType_def isArray_def)
  next
    case nm
    from is_mapping_D[OF nm(2)] nm(1) show ?thesis
      by (auto simp: compare_def strict_eq_def map_has_def objType_def isArray_def)
  next
    case sn
    from is_seq_D[OF sn(1)] sn(2) show ?thesis
      by (auto simp: compare_def strict_eq_def map_has_def objType_def isArray_def)
  next
    case mn
    from is_mapping_D[OF mn(1)] mn(2) show ?thesis
      by (auto simp: compare_def strict_eq_def map_has_def objType_def isArray_def)
  qed
qed

text \<open>The scenario \<open>compare("t", null, {})\<close>.\<close>

theorem shape_mismatch_witness:
  \<open>VNull = VNull \<and> is_mapping [Obj []] (VRef 0)
   \<and> compare [Obj []] ''t'' VNull (VRef 0) =
     Some (Inl (Thrown TypeError ShapeMismatch ''t: Expected type Null but found Object''))\<close>
  using shape_mismatch[of "[Obj []]" VNull "VRef 0" "''t''"]
  by (simp add: is_seq_def is_mapping_def deref_def isArray_def objType_def)

subsection \<open>Length mismatch\<close>

text \<open>
  Claim C5. Two arrays of different lengths fail with a length mismatch whose message
  reports both lengths, as decimal numerals that read back as the lengths.
\<close>

theorem length_mismatch:
  assumes "deref h ea = Some (Arr xs)" "deref h aa = Some (Arr ys)" "length xs \<noteq> length ys"
  shows \<open>compare h m (VRef ea) (VRef aa) =
     Some (Inl (Thrown Error LengthMismatch
       (m @ '': Expected array length "'' @ show_nat (length xs) @ ''" but found length "''
          @ show_nat (length ys) @ ''"'')))
   \<and> read_nat (show_nat (length xs)) = length xs
   \<and> read_nat (show_nat (length ys)) = length ys\<close>
proof -
  from assms have ne: "ea \<noteq> aa" by auto
  have le: "opt_length h (VRef ea) = VNum (JInt (int (length xs)))"
    using assms(1) by (simp add: opt_length_def get_prop_def)
  have la: "opt_length h (VRef aa) = VNum (JInt (int (length ys)))"
    using assms(2) by (simp add: opt_length_def get_prop_def)
  have arr: "isArray h (VRef ea)" "isArray h (VRef aa)"
    using assms by (simp_all add: isArray_def)
  show ?thesis
    using ne assms(3) arr
    by (simp add: compare_def strict_eq_def map_has_def le la to_string_nat read_show_nat)
qed

text \<open>The scenario \<open>compare("t", ["a","b"], ["a","b","c"])\<close>.\<close>

theorem length_mismatch_witness:
  \<open>deref heap_lengths 0 = Some (Arr [VStr ''a'', VStr ''b''])
   \<and> deref heap_lengths 1 = Some (Arr [VStr ''a'', VStr ''b'', VStr ''c''])
   \<and> compare heap_lengths ''t'' (VRef 0) (VRef 1) =
     Some (Inl (Thrown Error LengthMismatch ''t: Expected array length "2" but found length "3"''))\<close>
  using length_mismatch[of heap_lengths 0 "[VStr ''a'', VStr ''b'']" 1
      "[VStr ''a'', VStr ''b'', VStr ''c'']" "''t''"]
  by (simp add: heap_lengths_def deref_def show_nat.simps digit_char_def)

subsection \<open>Key-count mismatch\<close>

text \<open>
  What the key-count branch does on two plain objects none of whose keys is a name of
  \<open>Object.prototype\<close>: it throws at the first key of the larger side whose value on the
  smaller side is \<open>undefined\<close>, a key that is absent there or stored as \<open>undefined\<close>.
\<close>

lemma key_count_mismatch_own_names:
  assumes e: "deref h ea = Some (Obj ekvs)" and a: "deref h aa = Some (Obj akvs)"
    and de: "distinct (map fst ekvs)" and da: "distinct (map fst akvs)"
    and len: "length ekvs \<noteq> length akvs"
    and fresh: "\<not> map_has vm (VRef ea)" "\<not> map_has vm (VRef aa)"
    and same_length: "strict_eq (get_prop h (VRef ea) ''length'') (get_prop h (VRef aa) ''length'')"
    and own_e: "\<forall>k\<in>set (map fst ekvs). \<not> object_prototype_has k"
    and own_a: "\<forall>k\<in>set (map fst akvs). \<not> object_prototype_has k"
  shows \<open>\<exists>pre key post.
     (if length akvs < length ekvs
      then map fst ekvs = pre @ key # post
         \<and> get_prop h (VRef aa) key = VUndefined
         \<and> (\<forall>k\<in>set pre. get_prop h (VRef aa) k \<noteq> VUndefined)
         \<and> (key \<in> fst ` set akvs \<longrightarrow> map_of akvs key = Some VUndefined)
         \<and> assertEquals (Suc n) h m (VRef ea) (VRef aa) kt vm =
             Some (Inl (Thrown Error MissingKey
               (m @ '': Expected '' @ join ''.'' (kt @ [key]) @ '' but was not found'')))
      else map fst akvs = pre @ key # post
         \<and> get_prop h (VRef ea) key = VUndefined
         \<and> (\<forall>k\<in>set pre. get_prop h (VRef ea) k \<noteq> VUndefined)
         \<and> (key \<in> fst ` set ekvs \<longrightarrow> map_of ekvs key = Some VUndefined)
         \<and> assertEquals (Suc n) h m (VRef ea) (VRef aa) kt vm =
             Some (Inl (Thrown Error UnexpectedKey
               (m @ '': Found unexpected '' @ join ''.'' (kt @ [key])))))\<close>
proof -
  from e a len have ne: "ea \<noteq> aa" by auto
  have obj: "\<not> isArray h (VRef ea)" "\<not> isArray h (VRef aa)"
    using e a by (simp_all add: isArray_def)
  have ol: "strict_eq (opt_length h (VRef ea)) (opt_length h (VRef aa))"
    using same_length by (simp add: opt_length_def)
  note keys = own_keys_obj[OF e] own_keys_obj[OF a]
  show ?thesis
  proof (cases "length akvs < length ekvs")
    case True
    from scan_keys_finds[OF a de True own_e] obtain key
      where key: "scan_keys h (VRef aa) (map fst ekvs) = Some key" by blast
    from scan_keys_first[OF key] obtain pre post
      where first: "map fst ekvs = pre @ key # post" "get_prop h (VRef aa) key = VUndefined"
        "\<forall>k\<in>set pre. get_prop h (VRef aa) k \<noteq> VUndefined" by blast
    from first(2) get_prop_undefined_iff[OF a, of key]
    have stored: "key \<in> fst ` set akvs \<longrightarrow> map_of akvs key = Some VUndefined" by blast
    have \<open>assertEquals (Suc n) h m (VRef ea) (VRef aa) kt vm =
             Some (Inl (Thrown Error MissingKey
               (m @ '': Expected '' @ join ''.'' (kt @ [key]) @ '' but was not found'')))\<close>
      using ne fresh obj ol True key
      by (simp add: strict_eq_def[of "VRef ea" "VRef aa"] keys key_path_def key_count_check_def)
    with first stored True show ?thesis by auto
  next
    case False
    with len have less: "length ekvs < length akvs" by simp
    from scan_keys_finds[OF e da less own_a] obtain key
      where key: "scan_keys h (VRef ea) (map fst akvs) = Some key" by blast
    from scan_keys_first[OF key] obtain pre post
      where first: "map fst akvs = pre @ key # post" "get_prop h (VRef ea) key = VUndefined"
        "\<forall>k\<in>set pre. get_prop h (VRef ea) k \<noteq> VUndefined" by blast
    from first(2) get_prop_undefined_iff[OF e, of key]
    have stored: "key \<in> fst ` set ekvs \<longrightarrow> map_of ekvs key = Some VUndefined" by blast
    have \<open>assertEquals (Suc n) h m (VRef ea) (VRef aa) kt vm =
             Some (Inl (Thrown Error UnexpectedKey
               (m @ '': Found unexpected '' @ join ''.'' (kt @ [key]))))\<close>
      using ne fresh obj ol False less key
      by (simp add: strict_eq_def[of "VRef ea" "VRef aa"] keys key_path_def key_count_check_def)
    with first stored False show ?thesis by auto
  qed
qed

text \<open>
  Claim C6. With different key counts the comparison is meant to fail on the first key
  that one side has and the other has not, as the comments of the two scans say
  ("the one that is missing from actual", "does not exist on expected"). The scans test
  \<open>other[key] === undefined\<close> instead, and that read follows the prototype chain:

  \<^item> \<open>{a:'a'}\<close> against \<open>{a:'a', constructor:'c'}\<close>: \<open>expected["constructor"]\<close> is
    the inherited function \<open>Object\<close>, the scan throws nothing, and the comparison
    returns \<open>t: Pass!\<close>;
  \<^item> the same two objects the other way round: the scan again throws nothing, and the
    loop reports a value mismatch at \<open>constructor\<close>, not a missing key;
  \<^item> \<open>{a:1, b:2, c:3}\<close> against \<open>{a:undefined, c:3}\<close>: the scan stops at \<open>a\<close>,
    which both sides have, not at the missing \<open>b\<close>.

  On \<open>{a:'a'}\<close> against \<open>{a:'a', c:'c'}\<close> the comparison fails with the unexpected
  key \<open>c\<close>.
\<close>

theorem key_scan_reads_undefined:
  \<open>own_keys heap_inherited_key (VRef 0) = [''a'']
   \<and> own_keys heap_inherited_key (VRef 1) = [''a'', ''constructor'']
   \<and> get_prop heap_inherited_key (VRef 0) ''constructor'' = VFun ObjectPrototype ''constructor''
   \<and> key_count_check heap_inherited_key ''t'' (VRef 0) (VRef 1) [] = None
   \<and> compare heap_inherited_key ''t'' (VRef 0) (VRef 1) = Some (Inr ''t: Pass!'')
   \<and> key_count_check heap_inherited_key ''t'' (VRef 1) (VRef 0) [] = None
   \<and> compare heap_inherited_key ''t'' (VRef 1) (VRef 0) =
       Some (Inl (Thrown Error ValueMismatch
         ''t: Expected constructor "c" but found "function Object() { [native code] }"''))
   \<and> own_keys heap_undef_key (VRef 0) = [''a'', ''b'', ''c'']
   \<and> own_keys heap_undef_key (VRef 1) = [''a'', ''c'']
   \<and> compare heap_undef_key ''t'' (VRef 0) (VRef 1) =
       Some (Inl (Thrown Error MissingKey ''t: Expected a but was not found''))
   \<and> compare heap_extra_key ''t'' (VRef 0) (VRef 1) =
       Some (Inl (Thrown Error UnexpectedKey ''t: Found unexpected c''))\<close>
  by (simp add: compare_def heap_inherited_key_def heap_undef_key_def heap_extra_key_def js_defs)

subsection \<open>Type mismatch\<close>

text \<open>
  Claim C7, amended. A pair that \<open>assertEquals\<close> is called on (the top-level pair, or a
  nested pair with an object-typed side) and that is neither identical nor stopped by the
  cycle guard fails with \<open>TypeError\<close> when the two \<open>typeof\<close> differ, and the message
  names both. The same holds for the comparator of \<open>src/index.js\<close>. A nested pair of
  two values that are not object-typed is not entered: the loop compares it by \<open>!==\<close>,
  so different kinds there give a value mismatch, or a missing value when the actual side
  is \<open>undefined\<close>, with the dotted path in the message.
\<close>

theorem type_mismatch:
  \<open>(\<not> strict_eq e a \<and> \<not> map_has vm e \<and> \<not> map_has vm a \<and> typeof e \<noteq> typeof a \<longrightarrow>
      assertEquals (Suc n) h m e a kt vm =
        Some (Inl (Thrown TypeError TypeMismatch
          (m @ '': Expected type "'' @ typeof e @ ''" but found type "'' @ typeof a @ ''"''))))
   \<and> (typeof e \<noteq> typeof a \<longrightarrow>
      compare h m e a =
        Some (Inl (Thrown TypeError TypeMismatch
          (m @ '': Expected type "'' @ typeof e @ ''" but found type "'' @ typeof a @ ''"''))))
   \<and> (typeof e \<noteq> typeof a \<longrightarrow>
      assertEquals_index_js (Suc n) h m e a okt =
        Some (Inl (Thrown TypeError TypeMismatch
          (m @ '': Expected type "'' @ typeof e @ ''" but found type "'' @ typeof a @ ''"''))))
   \<and> (typeof (get_prop h' e' key) \<noteq> ''object'' \<and> typeof (get_prop h' a' key) \<noteq> ''object''
       \<and> typeof (get_prop h' e' key) \<noteq> typeof (get_prop h' a' key) \<longrightarrow>
      for_in rec h' m e' a' kt (key # keys) vm =
        Some (Inl (if get_prop h' a' key = VUndefined
          then Thrown Error MissingValue
                 (m @ '': Expected '' @ key_path kt key @ '' but was not found'')
          else Thrown Error ValueMismatch
                 (m @ '': Expected '' @ key_path kt key @ '' "'' @ to_string h' (get_prop h' e' key)
                    @ ''" but found "'' @ to_string h' (get_prop h' a' key) @ ''"''))))\<close>
proof (intro conjI impI)
  assume "\<not> strict_eq e a \<and> \<not> map_has vm e \<and> \<not> map_has vm a \<and> typeof e \<noteq> typeof a"
  then show \<open>assertEquals (Suc n) h m e a kt vm =
        Some (Inl (Thrown TypeError TypeMismatch
          (m @ '': Expected type "'' @ typeof e @ ''" but found type "'' @ typeof a @ ''"'')))\<close>
    by simp
next
  assume "typeof e \<noteq> typeof a"
  then show \<open>compare h m e a =
        Some (Inl (Thrown TypeError TypeMismatch
          (m @ '': Expected type "'' @ typeof e @ ''" but found type "'' @ typeof a @ ''"'')))\<close>
    by (simp add: compare_def typeof_neq_strict map_has_def)
next
  assume "typeof e \<noteq> typeof a"
  then show \<open>assertEquals_index_js (Suc n) h m e a okt =
        Some (Inl (Thrown TypeError TypeMismatch
          (m @ '': Expected type "'' @ typeof e @ ''" but found type "'' @ typeof a @ ''"'')))\<close>
    by simp
next
  assume "typeof (get_prop h' e' key) \<noteq> ''object'' \<and> typeof (get_prop h' a' key) \<noteq> ''object''
       \<and> typeof (get_prop h' e' key) \<noteq> typeof (get_prop h' a' key)"
  then show \<open>for_in rec h' m e' a' kt (key # keys) vm =
        Some (Inl (if get_prop h' a' key = VUndefined
          then Thrown Error MissingValue
                 (m @ '': Expected '' @ key_path kt key @ '' but was not found'')
          else Thrown Error ValueMismatch
                 (m @ '': Expected '' @ key_path kt key @ '' "'' @ to_string h' (get_prop h' e' key)
                    @ ''" but found "'' @ to_string h' (get_prop h' a' key) @ ''"'')))\<close>
    by (simp add: Let_def typeof_neq_strict) (simp add: strict_eq_def)
qed

text \<open>
  The claim as first stated fails on \<open>{a:1}\<close> against \<open>{a:"1"}\<close>: a number against a
  string at the nested position \<open>a\<close> is reported as a value mismatch. With \<open>{a:{}}\<close>
  against \<open>{a:1}\<close> the type mismatch at \<open>a\<close> is reported by a message without the path.
\<close>

theorem type_mismatch_counterexample:
  \<open>typeof (get_prop heap_num_str (VRef 0) ''a'') = ''number''
   \<and> typeof (get_prop heap_num_str (VRef 1) ''a'') = ''string''
   \<and> compare heap_num_str ''t'' (VRef 0) (VRef 1) =
       Some (Inl (Thrown Error ValueMismatch ''t: Expected a "1" but found "1"''))
   \<and> typeof (get_prop heap_obj_num (VRef 0) ''a'') = ''object''
   \<and> typeof (get_prop heap_obj_num (VRef 1) ''a'') = ''number''
   \<and> compare heap_obj_num ''t'' (VRef 0) (VRef 1) =
       Some (Inl (Thrown TypeError TypeMismatch ''t: Expected type "object" but found type "number"''))
   \<and> \<not> sublist ''a'' ''t: Expected type "object" but found type "number"''\<close>
  by (simp add: compare_def heap_num_str_def heap_obj_num_def js_defs show_nat.simps sublist_Cons_right)

theorem type_mismatch_witness:
  \<open>assertEquals (Suc 0) heap_obj_num ''t'' (VRef 2) (VNum (JInt 1)) [''a''] [VRef 0 \<mapsto> VRef 1] =
     Some (Inl (Thrown TypeError TypeMismatch ''t: Expected type "object" but found type "number"''))
   \<and> compare [] ''t'' (VStr ''1'') (VNum (JInt 1)) =
     Some (Inl (Thrown TypeError TypeMismatch ''t: Expected type "string" but found type "number"''))
   \<and> assertEquals_index_js (Suc 0) [] ''t'' (VStr ''1'') (VNum (JInt 1)) None =
     Some (Inl (Thrown TypeError TypeMismatch ''t: Expected type "string" but found type "number"''))
   \<and> for_in (assertEquals 0 heap_num_str ''t'') heap_num_str ''t'' (VRef 0) (VRef 1) [] [''a''] Map.empty =
     Some (Inl (Thrown Error ValueMismatch ''t: Expected a "1" but found "1"''))\<close>
proof -
  note nested = type_mismatch[of "VRef 2" "VNum (JInt 1)" "[VRef 0 \<mapsto> VRef 1]" 0 heap_obj_num
       "''t''" "[''a'']" None heap_num_str "VRef 0" "''a''" "VRef 1"
       "assertEquals 0 heap_num_str ''t''" "[]"]
  note top = type_mismatch[of "VStr ''1''" "VNum (JInt 1)" Map.empty 0 "[]" "''t''" "[]"
       None heap_num_str "VRef 0" "''a''" "VRef 1" "assertEquals 0 heap_num_str ''t''" "[]"]
  have 1: \<open>assertEquals (Suc 0) heap_obj_num ''t'' (VRef 2) (VNum (JInt 1)) [''a''] [VRef 0 \<mapsto> VRef 1] =
     Some (Inl (Thrown TypeError TypeMismatch ''t: Expected type "object" but found type "number"''))\<close>
    using nested by (simp add: strict_eq_def map_has_def)
  have 2: \<open>compare [] ''t'' (VStr ''1'') (VNum (JInt 1)) =
     Some (Inl (Thrown TypeError TypeMismatch ''t: Expected type "string" but found type "number"''))\<close>
    using top by simp
  have 3: \<open>assertEquals_index_js (Suc 0) [] ''t'' (VStr ''1'') (VNum (JInt 1)) None =
     Some (Inl (Thrown TypeError TypeMismatch ''t: Expected type "string" but found type "number"''))\<close>
    using top by simp
  have 4: \<open>for_in (assertEquals 0 heap_num_str ''t'') heap_num_str ''t'' (VRef 0) (VRef 1) [] [''a''] Map.empty =
     Some (Inl (Thrown Error ValueMismatch ''t: Expected a "1" but found "1"''))\<close>
    using top by (simp add: heap_num_str_def js_defs show_nat.simps)
  from 1 2 3 4 show ?thesis by blast
qed

subsection \<open>The pass message\<close>

text \<open>
  Claim C8, amended. \<open>compare("t", "abc", "abc")\<close> returns the string \<open>t: Pass!\<close>: the
  original message followed by \<open>: Pass!\<close>, without the compared value. The pass message
  that prints the value, \<open>t: Pass! "abc" equals "abc"\<close>, is the one of the comparator of
  \<open>src/index.js\<close>.
\<close>

theorem pass_message:
  \<open>compare h ''t'' (VStr ''abc'') (VStr ''abc'') = Some (Inr (''t'' @ '': Pass!''))
   \<and> assertEquals_index_js (Suc n) h ''t'' (VStr ''abc'') (VStr ''abc'') None =
       Some (Inr (''t'' @ '': Pass! "'' @ ''abc'' @ ''" equals "'' @ ''abc'' @ ''"''))\<close>
  by (simp add: compare_def strict_eq_def pass_msg_def isArray_def to_string_def pass_msg_index_js_def)

theorem pass_message_counterexample:
  \<open>compare [] ''t'' (VStr ''abc'') (VStr ''abc'') = Some (Inr ''t: Pass!'')
   \<and> \<not> sublist ''abc'' ''t: Pass!''\<close>
  by (simp add: compare_def strict_eq_def pass_msg_def sublist_Cons_right)

subsection \<open>The runner\<close>

text \<open>
  Claim C9. On a well-formed store \<open>runTest\<close> returns a string for every test case: the
  pass message when the comparison succeeds, the message of the thrown error when it
  fails. Nothing is thrown past it.
\<close>

theorem runTest_returns_string:
  assumes "wf_heap h" "wf_val h (expected tc)" "wf_val h (actual tc)"
  shows "\<exists>s. runTest h tc = Some s
     \<and> (case compare h (message tc) (expected tc) (actual tc) of
          None \<Rightarrow> False
        | Some (Inr p) \<Rightarrow> s = p \<and> p = pass_msg (message tc)
        | Some (Inl err) \<Rightarrow> s = err_message err)"
proof -
  from assertEquals_returns[OF assms, of "Suc (length h)" "message tc" "[]"]
  obtain r where r: "compare h (message tc) (expected tc) (actual tc) = Some r"
    by (auto simp: compare_def)
  show ?thesis
  proof (cases r)
    case (Inl err)
    with r show ?thesis by (simp add: runTest_def)
  next
    case (Inr p)
    with r compare_pass[of h "message tc" "expected tc" "actual tc" p]
    show ?thesis by (simp add: runTest_def)
  qed
qed

theorem runTest_returns_string_witness:
  \<open>wf_heap heap_lengths \<and> wf_val heap_lengths (VRef 0) \<and> wf_val heap_lengths (VRef 1)
   \<and> runTest heap_lengths \<lparr>message = ''Test 04'', expected = VRef 0, actual = VRef 1\<rparr>
       = Some ''Test 04: Expected array length "2" but found length "3"''
   \<and> runTest heap_lengths \<lparr>message = ''Test 05'', expected = VRef 1, actual = VRef 1\<rparr>
       = Some ''Test 05: Pass!''\<close>
proof -
  have wf: "wf_heap heap_lengths" "wf_val heap_lengths (VRef 0)" "wf_val heap_lengths (VRef 1)"
    by (simp_all add: wf_heap_def heap_lengths_def)
  from runTest_returns_string[of heap_lengths "\<lparr>message = ''Test 04'', expected = VRef 0, actual = VRef 1\<rparr>"]
       runTest_returns_string[of heap_lengths "\<lparr>message = ''Test 05'', expected = VRef 1, actual = VRef 1\<rparr>"]
       wf
  show ?thesis
    by (simp add: compare_def heap_lengths_def js_defs show_nat.simps err_message.simps)
qed

subsection \<open>An object met twice\<close>

text \<open>
  Claim C10. The map of visited values is keyed by the expected object alone. With
  \<open>s = {p:1}\<close>, comparing \<open>{x:s, y:s}\<close> with \<open>{x:{p:1}, y:{p:2}}\<close> succeeds: at \<open>y\<close>
  the object \<open>s\<close> is already a key of the map and the pair is taken as equal, although
  \<open>s\<close> and \<open>{p:2}\<close> compared on their own give a value mismatch at \<open>p\<close>. The store has
  no reference cycle.
\<close>

theorem shared_object_passes:
  \<open>refs_forward heap_shared
   \<and> compare heap_shared m (VRef 0) (VRef 2) = Some (Inr (pass_msg m))
   \<and> get_prop heap_shared (VRef 0) ''x'' = VRef 1
   \<and> get_prop heap_shared (VRef 0) ''y'' = VRef 1
   \<and> get_prop heap_shared (VRef 2) ''x'' = VRef 3
   \<and> get_prop heap_shared (VRef 2) ''y'' = VRef 4
   \<and> get_prop heap_shared (VRef 1) ''p'' = VNum (JInt 1)
   \<and> get_prop heap_shared (VRef 4) ''p'' = VNum (JInt 2)
   \<and> compare heap_shared m (VRef 1) (VRef 4) =
       Some (Inl (Thrown Error ValueMismatch (m @ '': Expected p "1" but found "2"'')))\<close>
  by (simp add: compare_def heap_shared_def refs_forward_def js_defs show_nat.simps upt_rec)

end
